theory Spec2Isabelle
  imports Complex_Main "HOL-Library.Word" "HOL-Library.Char_ord" "HOL-Library.List_Lexorder"
begin

section \<open>EventStatistic: the per-event histogram and its summary\<close>

text \<open>
  \<^verbatim>\<open>constexpr uint32_t microsecondsInSecond = 1000000;\<close>
  Every \<^verbatim>\<open>uint32_t\<close> of the source is a \<^typ>\<open>32 word\<close>: addition wraps modulo
  \<open>2 ^ 32\<close>, and \<open><\<close>, \<open>mod\<close> are the unsigned ones.
\<close>

definition microsecondsInSecond :: "32 word" where
  "microsecondsInSecond = 1000000"

text \<open>
  The fields of \<^verbatim>\<open>class EventStatistic\<close>, in the order of the source (an identifier
  cannot start with an underscore or a digit here, so \<^verbatim>\<open>_122us_90_0_percentel\<close> is
  \<open>percentel_122us_90_0\<close> and so on). \<^verbatim>\<open>array<uint32_t, microsecondsInSecond>\<close> is
  a function from the index to the counter; the array has the indices below 1000000
  only, and \<open>AddData\<close> and \<open>Calc\<close> below never touch another one.
\<close>

record EventStatistic =
  minimum :: "32 word"
  maximum :: "32 word"
  median :: "32 word"
  percentel_122us_90_0 :: "32 word"
  percentel_140us_99_0 :: "32 word"
  percentel_145us_99_9 :: "32 word"
  total_counter :: "32 word"
  below_122us_counter :: "32 word"
  below_140us_counter :: "32 word"
  below_145us_counter :: "32 word"
  histogram :: "nat \<Rightarrow> 32 word"

text \<open>\<^verbatim>\<open>Reset()\<close> overwrites every field, whatever the object held before.\<close>

definition Reset :: "EventStatistic \<Rightarrow> EventStatistic" where
  "Reset s =
     \<lparr> minimum = 0, maximum = 0, median = 0,
       percentel_122us_90_0 = 0, percentel_140us_99_0 = 0, percentel_145us_99_9 = 0,
       total_counter = 0,
       below_122us_counter = 0, below_140us_counter = 0, below_145us_counter = 0,
       histogram = (\<lambda>_. 0) \<rparr>"

text \<open>
  The constructor \<^verbatim>\<open>EventStatistic() { Reset(); }\<close>: the fields are indeterminate
  before the body runs and \<open>Reset\<close> ignores them.
\<close>

definition new_EventStatistic :: EventStatistic where
  "new_EventStatistic = Reset (EventStatistic.make 0 0 0 0 0 0 0 0 0 0 (\<lambda>_. 0))"

text \<open>
  \<^verbatim>\<open>void AddData(uint32_t delay)\<close>, statement by statement. The index
  \<open>unat delay\<close> is below 1000000 after the reduction.
\<close>

definition AddData :: "EventStatistic \<Rightarrow> 32 word \<Rightarrow> EventStatistic" where
  "AddData s0 delay0 =
     (let delay = delay0 mod microsecondsInSecond;
          s1 = s0\<lparr>histogram := (histogram s0)(unat delay := histogram s0 (unat delay) + 1)\<rparr>;
          s2 = s1\<lparr>total_counter := total_counter s1 + 1\<rparr>;
          s3 = (if delay < minimum s2 \<or> minimum s2 = 0 then s2\<lparr>minimum := delay\<rparr> else s2);
          s4 = (if delay > maximum s3 then s3\<lparr>maximum := delay\<rparr> else s3);
          s5 = (if delay < 122
                then s4\<lparr>below_122us_counter := below_122us_counter s4 + 1\<rparr> else s4);
          s6 = (if delay < 140
                then s5\<lparr>below_140us_counter := below_140us_counter s5 + 1\<rparr> else s5);
          s7 = (if delay < 145
                then s6\<lparr>below_145us_counter := below_145us_counter s6 + 1\<rparr> else s6)
      in s7)"

text \<open>
  The four \<^verbatim>\<open>float\<close> locals of \<^verbatim>\<open>Calc()\<close>. A \<^verbatim>\<open>float\<close> is modelled by the
  rational number it stands for. The locals only ever hold sums of bucket counts, and
  binary32 holds every whole number up to \<open>2 ^ 24\<close> exactly, so the model is exact
  for the locals while an event has at most \<open>2 ^ 24\<close> samples; rounding of the
  locals beyond that, and of the quotient below, is not modelled.
\<close>

record Calc_locals =
  local_median_counter :: rat
  local_122us_counter :: rat
  local_140us_counter :: rat
  local_145us_counter :: rat

text \<open>
  The test \<^verbatim>\<open>local / counter < bound\<close> of \<^verbatim>\<open>Calc()\<close>: \<open>counter\<close> is converted to
  \<^verbatim>\<open>float\<close> and divides the non-negative \<open>local\<close>. Dividing by zero gives NaN
  (for \<open>0 / 0\<close>) or \<open>+infinity\<close>, and neither is below a finite bound, so the test is
  false when the counter is zero; HOL's \<open>x / 0 = 0\<close> is not used.
\<close>

definition fraction_below :: "rat \<Rightarrow> 32 word \<Rightarrow> rat \<Rightarrow> bool" where
  "fraction_below local_counter counter bound =
     (counter \<noteq> 0 \<and> local_counter / of_nat (unat counter) < bound)"

text \<open>One iteration of the loop of \<^verbatim>\<open>Calc()\<close>, for the loop variable \<open>delay\<close>.\<close>

definition Calc_body :: "nat \<Rightarrow> EventStatistic \<times> Calc_locals \<Rightarrow> EventStatistic \<times> Calc_locals" where
  "Calc_body delay sl =
     (let s0 = fst sl; l0 = snd sl; count = histogram s0 delay in
      if count = 0 then (s0, l0)
      else
        let c = (of_nat (unat count) :: rat);
            (s1, l1) =
              (if fraction_below (local_median_counter l0) (total_counter s0) 50
               then (s0\<lparr>median := of_nat delay\<rparr>,
                     l0\<lparr>local_median_counter := local_median_counter l0 + c\<rparr>)
               else (s0, l0));
            (s2, l2) =
              (if delay < 122
               then (if fraction_below (local_122us_counter l1) (below_122us_counter s1) 90
                     then (s1\<lparr>percentel_122us_90_0 := of_nat delay\<rparr>,
                           l1\<lparr>local_122us_counter := local_122us_counter l1 + c\<rparr>)
                     else (s1, l1))
               else (s1, l1));
            (s3, l3) =
              (if delay < 140
               then (if fraction_below (local_140us_counter l2) (below_140us_counter s2) 99
                     then (s2\<lparr>percentel_140us_99_0 := of_nat delay\<rparr>,
                           l2\<lparr>local_140us_counter := local_140us_counter l2 + c\<rparr>)
                     else (s2, l2))
               else (s2, l2));
            (s4, l4) =
              (if delay < 145
               then (if fraction_below (local_145us_counter l3) (below_145us_counter s3) (999 / 10)
                     then (s3\<lparr>percentel_145us_99_9 := of_nat delay\<rparr>,
                           l3\<lparr>local_145us_counter := local_145us_counter l3 + c\<rparr>)
                     else (s3, l3))
               else (s3, l3))
        in (s4, l4))"

text \<open>
  \<^verbatim>\<open>void Calc()\<close>: the locals start at 0 and the loop runs
  \<^verbatim>\<open>for (uint32_t delay = 0; delay < microsecondsInSecond; delay++)\<close>.
\<close>

definition Calc :: "EventStatistic \<Rightarrow> EventStatistic" where
  "Calc s =
     fst (fold Calc_body [0..<unat microsecondsInSecond]
            (s, \<lparr> local_median_counter = 0, local_122us_counter = 0,
                  local_140us_counter = 0, local_145us_counter = 0 \<rparr>))"

definition GetMinimun :: "EventStatistic \<Rightarrow> 32 word" where
  "GetMinimun s = minimum s"

definition GetMedian :: "EventStatistic \<Rightarrow> 32 word" where
  "GetMedian s = median s"

definition Get122us90Percentel :: "EventStatistic \<Rightarrow> 32 word" where
  "Get122us90Percentel s = percentel_122us_90_0 s"

definition Get140us99Percentel :: "EventStatistic \<Rightarrow> 32 word" where
  "Get140us99Percentel s = percentel_140us_99_0 s"

definition Get145us999Percentel :: "EventStatistic \<Rightarrow> 32 word" where
  "Get145us999Percentel s = percentel_145us_99_9 s"

text \<open>
  What \<^verbatim>\<open>operator<<\<close> prints for an unsigned integer: its decimal digits.
\<close>

fun show_nat :: "nat \<Rightarrow> string" where
  "show_nat n =
     (if n < 10 then [char_of (48 + n)]
      else show_nat (n div 10) @ [char_of (48 + n mod 10)])"

definition show_uint32 :: "32 word \<Rightarrow> string" where
  "show_uint32 w = show_nat (unat w)"

definition endl :: string where
  "endl = [CHR 0x0A]"

definition tab :: char where
  "tab = CHR 0x09"

text \<open>\<^verbatim>\<open>string GetReport()\<close>.\<close>

definition GetReport :: "EventStatistic \<Rightarrow> string" where
  "GetReport s =
     ''min='' @ show_uint32 (GetMinimun s)
     @ '' 50%='' @ show_uint32 (GetMedian s)
     @ '' 90%='' @ show_uint32 (Get122us90Percentel s)
     @ '' 99%='' @ show_uint32 (Get140us99Percentel s)
     @ '' 99.9%='' @ show_uint32 (Get145us999Percentel s)"

text \<open>
  \<^verbatim>\<open>string GetFullReport()\<close>. The two \<^verbatim>\<open>float\<close> columns are
  \<^verbatim>\<open>(float)(a) / _total_counter * 100.0\<close> printed by \<^verbatim>\<open>operator<<\<close>; their text is
  not modelled and is the parameter \<open>show_percent a total\<close>. The loop variable
  \<open>exec_time\<close> starts at a multiple of 5 and so never wraps around; it is a natural
  number here. The rows function is the body of the outer loop, the list sum its
  inner loop with the \<^verbatim>\<open>uint32_t\<close> accumulator \<open>trans_no\<close>.
\<close>

function GetFullReport_rows ::
  "(32 word \<Rightarrow> 32 word \<Rightarrow> string) \<Rightarrow> EventStatistic \<Rightarrow> nat \<Rightarrow> nat \<Rightarrow> 32 word \<Rightarrow> string" where
  "GetFullReport_rows show_percent s exec_time range_max trans_no_below_exec_time =
     (if exec_time < range_max
      then
        (let trans_no = sum_list (map (histogram s) [exec_time..<exec_time + 5]) in
         if trans_no = 0
         then GetFullReport_rows show_percent s (exec_time + 5) range_max
                trans_no_below_exec_time
         else
           show_nat exec_time @ [tab] @ show_uint32 trans_no @ [tab]
           @ show_percent trans_no (total_counter s) @ [tab]
           @ show_percent trans_no_below_exec_time (total_counter s) @ endl
           @ GetFullReport_rows show_percent s (exec_time + 5) range_max
               (trans_no_below_exec_time + trans_no))
      else [])"
  by pat_completeness auto
termination
  by (relation "measure (\<lambda>(p, s, exec_time, range_max, b). range_max - exec_time)") auto

declare GetFullReport_rows.simps [simp del]

definition GetFullReport :: "(32 word \<Rightarrow> 32 word \<Rightarrow> string) \<Rightarrow> EventStatistic \<Rightarrow> string" where
  "GetFullReport show_percent s =
     (let step = (5 :: 32 word);
          range_min = minimum s - minimum s mod step;
          range_max = maximum s - maximum s mod step + step
      in ''ExecTime'' @ [tab] @ ''TransNo'' @ [tab] @ ''Weight,%'' @ [tab] @ ''Percent'' @ endl
         @ GetFullReport_rows show_percent s (unat range_min) (unat range_max) 0)"

section \<open>Statistic: the registry of events\<close>

text \<open>
  \<^verbatim>\<open>map<Event, EventStatistic> _events\<close> is an association list kept in the order of
  its keys, which is the order a \<^verbatim>\<open>std::map\<close> iterates in (strings compare byte by
  byte). \<open>map_count\<close> is \<^verbatim>\<open>count\<close>, \<open>map_insert\<close> is \<^verbatim>\<open>insert\<close> (which
  leaves a present key alone), \<open>map_find\<close> reads an entry and \<open>map_modify\<close> is
  \<^verbatim>\<open>_events[k].f()\<close>: \<^verbatim>\<open>operator[]\<close> first inserts a default-constructed value
  when the key is absent. The \<^verbatim>\<open>recursive_mutex\<close> has no counterpart in this
  sequential model.
\<close>

type_synonym Event = string

fun map_count :: "(Event \<times> 'v) list \<Rightarrow> Event \<Rightarrow> nat" where
  "map_count [] k = 0"
| "map_count ((a, b) # ps) k = (if a = k then 1 else map_count ps k)"

fun map_insert :: "Event \<times> 'v \<Rightarrow> (Event \<times> 'v) list \<Rightarrow> (Event \<times> 'v) list" where
  "map_insert (k, v) [] = [(k, v)]"
| "map_insert (k, v) ((a, b) # ps) =
     (if k < a then (k, v) # (a, b) # ps
      else if k = a then (a, b) # ps
      else (a, b) # map_insert (k, v) ps)"

fun map_find :: "(Event \<times> 'v) list \<Rightarrow> Event \<Rightarrow> 'v option" where
  "map_find [] k = None"
| "map_find ((a, b) # ps) k = (if a = k then Some b else map_find ps k)"

definition map_modify ::
  "Event \<Rightarrow> (EventStatistic \<Rightarrow> EventStatistic) \<Rightarrow> (Event \<times> EventStatistic) list
     \<Rightarrow> (Event \<times> EventStatistic) list" where
  "map_modify k f ps =
     map (\<lambda>(a, b). if a = k then (a, f b) else (a, b))
       (map_insert (k, new_EventStatistic) ps)"

record Statistic =
  events :: "(Event \<times> EventStatistic) list"

definition AddEvent :: "Statistic \<Rightarrow> Event \<Rightarrow> Statistic" where
  "AddEvent st ev =
     (if map_count (events st) ev = 0
      then st\<lparr>events := map_insert (ev, new_EventStatistic) (events st)\<rparr>
      else st)"

definition AddEventData :: "Statistic \<Rightarrow> Event \<Rightarrow> 32 word \<Rightarrow> Statistic" where
  "AddEventData st ev d =
     (let st1 = AddEvent st ev
      in st1\<lparr>events := map_modify ev (\<lambda>s. AddData s d) (events st1)\<rparr>)"

text \<open>
  \<^verbatim>\<open>string GetEventStatistic(Event event)\<close> returns the text and leaves the registry
  changed (the entry created, its summary recomputed).
\<close>

definition GetEventStatistic :: "Statistic \<Rightarrow> Event \<Rightarrow> string \<times> Statistic" where
  "GetEventStatistic st ev =
     (let st1 = AddEvent st ev;
          st2 = st1\<lparr>events := map_modify ev Calc (events st1)\<rparr>;
          entry = (case map_find (events st2) ev of
                     Some s \<Rightarrow> s | None \<Rightarrow> new_EventStatistic)
      in (ev @ '' '' @ GetReport entry @ endl, st2))"

text \<open>
  \<^verbatim>\<open>string GetFullStatistic()\<close>: every entry is recomputed in place and contributes
  one block of text, in the order of the keys.
\<close>

definition event_block :: "(32 word \<Rightarrow> 32 word \<Rightarrow> string) \<Rightarrow> Event \<times> EventStatistic \<Rightarrow> string" where
  "event_block show_percent e =
     fst e @ '' '' @ GetReport (snd e) @ endl @ GetFullReport show_percent (snd e) @ endl"

definition GetFullStatistic ::
  "(32 word \<Rightarrow> 32 word \<Rightarrow> string) \<Rightarrow> Statistic \<Rightarrow> string \<times> Statistic" where
  "GetFullStatistic show_percent st =
     (let es = map (\<lambda>(a, b). (a, Calc b)) (events st)
      in (concat (map (event_block show_percent) es), st\<lparr>events := es\<rparr>))"

section \<open>UDPHandler: one query datagram\<close>

text \<open>
  \<^verbatim>\<open>recvfrom(descriptor, buf, len, 0, &src_addr, &addrlen)\<close> with \<^verbatim>\<open>len = 1024\<close>
  copies at most 1024 bytes of the datagram over the start of \<open>buf\<close> and leaves the
  rest of \<open>buf\<close> as it was; the number of bytes received is the return value, which
  the source drops. \<open>buf\<close> is a local array that is never initialised, so what it
  holds before the call is a parameter here.
\<close>

definition recvfrom :: "char list \<Rightarrow> char list \<Rightarrow> char list" where
  "recvfrom buf payload = take 1024 payload @ drop (length (take 1024 payload)) buf"

text \<open>
  \<^verbatim>\<open>string event(buf)\<close> reads \<open>buf\<close> as a C string: the bytes before the first NUL.
  With no NUL in the array the constructor reads past its end, which is undefined
  behaviour: \<open>None\<close>.
\<close>

definition string_of_c_str :: "char list \<Rightarrow> string option" where
  "string_of_c_str buf =
     (if CHR 0x00 \<in> set buf then Some (takeWhile (\<lambda>c. c \<noteq> CHR 0x00) buf) else None)"

text \<open>
  \<^verbatim>\<open>void UDPHandler(int descriptor, Statistic& stat)\<close> for one received datagram
  (payload and source address): the result is the list of datagrams handed to
  \<^verbatim>\<open>sendto\<close>, each with its destination, and the registry afterwards.
\<close>

definition UDPHandler_event :: "char list \<Rightarrow> char list \<Rightarrow> string option" where
  "UDPHandler_event buf payload = string_of_c_str (recvfrom buf payload)"

definition UDPHandler ::
  "char list \<Rightarrow> char list \<times> 'addr \<Rightarrow> Statistic \<Rightarrow> ((string \<times> 'addr) list \<times> Statistic) option" where
  "UDPHandler buf dgram stat =
     (let src_addr = snd dgram in
      case UDPHandler_event buf (fst dgram) of
        None \<Rightarrow> None
      | Some ev \<Rightarrow>
          (let (report, stat') = GetEventStatistic stat ev
           in Some ([(report, src_addr)], stat')))"

section \<open>MainHandler: the record parser\<close>

text \<open>
  \<^verbatim>\<open>isdigit\<close> on a byte, and \<^verbatim>\<open>stoi\<close> on a string that starts with neither white
  space nor a sign (\<open>avgtsmr\<close> only ever holds digits): the leading digits are read
  in base 10; none at all is \<^verbatim>\<open>std::invalid_argument\<close>, a value above
  \<^verbatim>\<open>INT_MAX\<close> is \<^verbatim>\<open>std::out_of_range\<close>.
\<close>

datatype stoi_error = invalid_argument | out_of_range

definition isdigit :: "char \<Rightarrow> bool" where
  "isdigit c = (48 \<le> (of_char c :: nat) \<and> (of_char c :: nat) \<le> 57)"

definition stoi :: "string \<Rightarrow> stoi_error + int" where
  "stoi str =
     (let ds = takeWhile isdigit str;
          v = foldl (\<lambda>acc c. acc * 10 + (of_char c - 48)) (0 :: int) ds
      in if ds = [] then Inl invalid_argument
         else if v > 2147483647 then Inl out_of_range
         else Inr v)"

text \<open>
  The locals of \<^verbatim>\<open>MainHandler\<close> that live across bytes and across reads; the
  source's \<^verbatim>\<open>section\<close> is \<open>sect\<close>, as the former is a keyword here. (The local
  \<open>delay\<close> is written and passed on at once; it is a \<open>let\<close> below.)
\<close>

record MainHandler_locals =
  event :: string
  avgtsmr :: string
  sect :: int
  tab_counter :: int

text \<open>
  The body of the inner loop, for the byte \<open>c = buf[i]\<close>. The parser touches the
  registry through \<^verbatim>\<open>stat.AddEventData(event, delay)\<close> only, so that call is the
  parameter \<open>add\<close>: with \<open>AddEventData\<close> it is the program, with \<open>log_call\<close> it
  records the emitted pairs. An exception that \<^verbatim>\<open>stoi\<close> throws is not caught in
  \<^verbatim>\<open>MainHandler\<close>: the result is \<open>Inl\<close> of it, with the registry as it stands.
\<close>

definition MainHandler_byte ::
  "('st \<Rightarrow> Event \<Rightarrow> 32 word \<Rightarrow> 'st) \<Rightarrow> char \<Rightarrow> MainHandler_locals \<Rightarrow> 'st
     \<Rightarrow> (stoi_error + MainHandler_locals) \<times> 'st" where
  "MainHandler_byte add c l stat =
     (if sect l = 0 then
        (if c = CHR '']'' then (Inr (l\<lparr>sect := sect l + 1\<rparr>), stat)
         else (Inr l, stat))
      else if sect l = 1 then
        (if c = tab then (Inr (l\<lparr>sect := sect l + 1, event := []\<rparr>), stat)
         else (Inr (l\<lparr>sect := 0\<rparr>), stat))
      else if sect l = 2 then
        (if c = tab then (Inr (l\<lparr>tab_counter := 1, sect := sect l + 1\<rparr>), stat)
         else (Inr (l\<lparr>event := event l @ [c]\<rparr>), stat))
      else if sect l = 3 then
        (let l1 = (if c = tab then l\<lparr>tab_counter := tab_counter l + 1\<rparr> else l);
             l2 = (if tab_counter l1 = 14
                   then l1\<lparr>sect := sect l1 + 1, avgtsmr := []\<rparr> else l1)
         in (Inr l2, stat))
      else if sect l = 4 then
        (if isdigit c then (Inr (l\<lparr>avgtsmr := avgtsmr l @ [c]\<rparr>), stat)
         else
           (case stoi (avgtsmr l) of
              Inl e \<Rightarrow> (Inl e, stat)
            | Inr v \<Rightarrow>
                (let delay = (word_of_int v :: 32 word)
                 in (Inr (l\<lparr>sect := 0\<rparr>), add stat (event l) delay))))
      else (Inr l, stat))"

text \<open>The inner loop over one buffer that \<^verbatim>\<open>read\<close> filled.\<close>

fun MainHandler_buf ::
  "('st \<Rightarrow> Event \<Rightarrow> 32 word \<Rightarrow> 'st) \<Rightarrow> char list \<Rightarrow> MainHandler_locals \<Rightarrow> 'st
     \<Rightarrow> (stoi_error + MainHandler_locals) \<times> 'st" where
  "MainHandler_buf add [] l stat = (Inr l, stat)"
| "MainHandler_buf add (c # cs) l stat =
     (case MainHandler_byte add c l stat of
        (Inl e, stat') \<Rightarrow> (Inl e, stat')
      | (Inr l', stat') \<Rightarrow> MainHandler_buf add cs l' stat')"

text \<open>
  The outer loop. The descriptor is the list of what its successive \<^verbatim>\<open>read\<close> calls
  return; an empty read (or the end of the list) is end of file and leaves the loop.
  The result is the exception that escaped, if one did, and the registry.
\<close>

fun MainHandler_loop ::
  "('st \<Rightarrow> Event \<Rightarrow> 32 word \<Rightarrow> 'st) \<Rightarrow> char list list \<Rightarrow> MainHandler_locals \<Rightarrow> 'st
     \<Rightarrow> stoi_error option \<times> 'st" where
  "MainHandler_loop add [] l stat = (None, stat)"
| "MainHandler_loop add (buf # reads) l stat =
     (if buf = [] then (None, stat)
      else
        (case MainHandler_buf add buf l stat of
           (Inl e, stat') \<Rightarrow> (Some e, stat')
         | (Inr l', stat') \<Rightarrow> MainHandler_loop add reads l' stat'))"

definition MainHandler ::
  "('st \<Rightarrow> Event \<Rightarrow> 32 word \<Rightarrow> 'st) \<Rightarrow> char list list \<Rightarrow> 'st \<Rightarrow> stoi_error option \<times> 'st" where
  "MainHandler add reads stat =
     MainHandler_loop add reads
       \<lparr> event = [], avgtsmr = [], sect = 0, tab_counter = 0 \<rparr> stat"

text \<open>
  The recording stand-in for the registry: it keeps the arguments of every
  \<open>AddEventData\<close> call, in order. \<open>emitted reads\<close> is what the parser emits on a
  stream and the exception that ended it, if any.
\<close>

definition log_call :: "(Event \<times> 32 word) list \<Rightarrow> Event \<Rightarrow> 32 word \<Rightarrow> (Event \<times> 32 word) list" where
  "log_call calls ev d = calls @ [(ev, d)]"

definition emitted :: "char list list \<Rightarrow> stoi_error option \<times> (Event \<times> 32 word) list" where
  "emitted reads = MainHandler log_call reads []"

text \<open>
  One record in the wire format
  \<^verbatim>\<open>[<ignored>]\t<event>\t<filler>x13\t<digits><non-digit>\<close>, for building inputs:
  the bracketed field is \<open>[t]\<close>, every filler is \<open>x\<close> and the record ends with a
  newline.
\<close>

definition wire_record :: "string \<Rightarrow> string \<Rightarrow> char list" where
  "wire_record ev digits =
     ''[t]'' @ [tab] @ ev @ [tab] @ concat (replicate 13 (''x'' @ [tab])) @ digits @ endl"

section \<open>Sums over the histogram\<close>

text \<open>
  The sum of the first \<open>n\<close> bucket counters: \<open>bucket_sum\<close> adds them as
  \<^verbatim>\<open>uint32_t\<close> values (modulo \<open>2 ^ 32\<close>), \<open>bucket_total\<close> as unbounded numbers.
\<close>

definition bucket_sum :: "EventStatistic \<Rightarrow> nat \<Rightarrow> 32 word" where
  "bucket_sum s n = sum_list (map (histogram s) [0..<n])"

definition bucket_total :: "EventStatistic \<Rightarrow> nat \<Rightarrow> nat" where
  "bucket_total s n = sum_list (map (\<lambda>i. unat (histogram s i)) [0..<n])"

definition sums_agree :: "EventStatistic \<Rightarrow> bool" where
  "sums_agree s =
     (bucket_sum s 1000000 = total_counter s \<and>
      bucket_sum s 122 = below_122us_counter s \<and>
      bucket_sum s 140 = below_140us_counter s \<and>
      bucket_sum s 145 = below_145us_counter s)"

definition counts_exact :: "EventStatistic \<Rightarrow> bool" where
  "counts_exact s =
     (bucket_total s 1000000 = unat (total_counter s) \<and>
      bucket_total s 122 = unat (below_122us_counter s) \<and>
      bucket_total s 140 = unat (below_140us_counter s) \<and>
      bucket_total s 145 = unat (below_145us_counter s))"

text \<open>The worked example: nine delays of 10 and one of 130 into a fresh event.\<close>

definition sample_stat :: EventStatistic where
  "sample_stat = foldl AddData new_EventStatistic [10, 10, 10, 10, 10, 10, 10, 10, 10, 130]"

section \<open>Properties of AddData\<close>

text \<open>
  Claim C7. An insert sets the minimum to the inserted delay (reduced modulo 1000000,
  as the first statement of \<open>AddData\<close> does) exactly when that delay is smaller than
  the current minimum or the current minimum is still 0, and leaves it alone otherwise.
  So a fresh event reports minimum 0, and after the delays 300 and 50 it reports 50.
\<close>

theorem AddData_minimum:
  "GetMinimun (AddData s delay) =
     (if delay mod microsecondsInSecond < GetMinimun s \<or> GetMinimun s = 0
      then delay mod microsecondsInSecond else GetMinimun s)
   \<and> GetMinimun new_EventStatistic = 0
   \<and> GetMinimun (AddData (AddData new_EventStatistic 300) 50) = 50"
  by (simp add: AddData_def GetMinimun_def new_EventStatistic_def Reset_def
      microsecondsInSecond_def Let_def)

text \<open>
  Claim C3, as the source has it. \<open>AddData\<close> leaves the four values that \<open>Calc\<close>
  computes (median and the three percentiles) unchanged, for every state and every
  delay. The fifth value of the report, the minimum, is not among them: \<open>AddData\<close>
  itself maintains it.
\<close>

theorem AddData_keeps_computed_summary:
  "GetMedian (AddData s d) = GetMedian s
   \<and> Get122us90Percentel (AddData s d) = Get122us90Percentel s
   \<and> Get140us99Percentel (AddData s d) = Get140us99Percentel s
   \<and> Get145us999Percentel (AddData s d) = Get145us999Percentel s"
  by (simp add: AddData_def Let_def GetMedian_def Get122us90Percentel_def
      Get140us99Percentel_def Get145us999Percentel_def)

text \<open>
  Claim C3 as stated fails on the minimum: the first insert into a fresh event
  changes the reported minimum from 0 to the delay.
\<close>

theorem AddData_changes_minimum_counterexample:
  "GetMinimun (AddData new_EventStatistic 5) \<noteq> GetMinimun new_EventStatistic"
  by (simp add: AddData_def Let_def GetMinimun_def new_EventStatistic_def Reset_def
      microsecondsInSecond_def)

subsection \<open>Bucket sums and the counters\<close>

lemma sum_list_upd_word:
  "sum_list (map (h(d := h d + 1)) [0..<n]) =
     sum_list (map h [0..<n]) + (if d < n then 1 else (0::32 word))"
  by (induction n) auto

lemma unat_reduced_less: "unat (delay mod microsecondsInSecond) < 1000000"
  unfolding microsecondsInSecond_def
  by (simp add: unat_mod)

lemma reduced_less_iff:
  "(delay mod microsecondsInSecond < 122) = (unat (delay mod microsecondsInSecond) < 122)"
  "(delay mod microsecondsInSecond < 140) = (unat (delay mod microsecondsInSecond) < 140)"
  "(delay mod microsecondsInSecond < 145) = (unat (delay mod microsecondsInSecond) < 145)"
  by (simp_all add: word_less_nat_alt)

lemma histogram_AddData:
  "histogram (AddData s delay) =
     (histogram s)(unat (delay mod microsecondsInSecond) :=
        histogram s (unat (delay mod microsecondsInSecond)) + 1)"
  by (simp add: AddData_def Let_def)

lemma total_counter_AddData: "total_counter (AddData s delay) = total_counter s + 1"
  by (simp add: AddData_def Let_def)

lemma below_AddData:
  "below_122us_counter (AddData s delay) =
     below_122us_counter s + (if delay mod microsecondsInSecond < 122 then 1 else 0)"
  "below_140us_counter (AddData s delay) =
     below_140us_counter s + (if delay mod microsecondsInSecond < 140 then 1 else 0)"
  "below_145us_counter (AddData s delay) =
     below_145us_counter s + (if delay mod microsecondsInSecond < 145 then 1 else 0)"
  by (simp_all add: AddData_def Let_def)

lemma sums_agree_AddData: "sums_agree s \<Longrightarrow> sums_agree (AddData s delay)"
  using unat_reduced_less [of delay]
  by (simp add: sums_agree_def bucket_sum_def histogram_AddData total_counter_AddData
      below_AddData sum_list_upd_word reduced_less_iff)

lemma sums_agree_new: "sums_agree new_EventStatistic"
  by (simp add: sums_agree_def bucket_sum_def new_EventStatistic_def Reset_def)

lemma sums_agree_foldl: "sums_agree s \<Longrightarrow> sums_agree (foldl AddData s delays)"
  by (induction delays arbitrary: s) (simp_all add: sums_agree_AddData)

lemma sum_list_upd_nat:
  "unat v = unat (h d) + 1 \<Longrightarrow>
   sum_list (map (\<lambda>i. unat ((h(d := v)) i)) [0..<n]) =
     sum_list (map (\<lambda>i. unat (h i)) [0..<n]) + (if d < n then 1 else 0)"
  by (induction n) (auto simp: less_Suc_eq)

lemma bucket_le_sum_list:
  "d < n \<Longrightarrow> unat (h d) \<le> sum_list (map (\<lambda>i. unat (h i)) [0..<n])"
  by (induction n) (auto simp: less_Suc_eq)

lemma sum_list_upt_mono:
  "m \<le> n \<Longrightarrow> sum_list (map f [0..<m]) \<le> sum_list (map f [0..<n::nat]) + (0::nat)"
  by (induction n) (auto simp: le_Suc_eq)

lemma unat_plus_one: "unat (w :: 32 word) < 4294967295 \<Longrightarrow> unat (w + 1) = unat w + 1"
  by (simp add: unat_word_ariths)

lemma bucket_total_AddData:
  "unat (histogram s (unat (delay mod microsecondsInSecond)) + 1) =
     unat (histogram s (unat (delay mod microsecondsInSecond))) + 1 \<Longrightarrow>
   bucket_total (AddData s delay) n =
     bucket_total s n + (if unat (delay mod microsecondsInSecond) < n then 1 else 0)"
  unfolding bucket_total_def histogram_AddData by (rule sum_list_upd_nat)

lemma counts_exact_AddData:
  assumes ex: "counts_exact s" and room: "unat (total_counter s) < 4294967295"
  shows "counts_exact (AddData s delay) \<and>
         unat (total_counter (AddData s delay)) = unat (total_counter s) + 1"
proof -
  let ?k = "unat (delay mod microsecondsInSecond)"
  have k: "?k < 1000000" by (rule unat_reduced_less)
  have tot: "bucket_total s 1000000 < 4294967295"
    using ex room by (simp add: counts_exact_def)
  have "unat (histogram s ?k) \<le> bucket_total s 1000000"
    unfolding bucket_total_def by (rule bucket_le_sum_list [OF k])
  then have bk: "unat (histogram s ?k + 1) = unat (histogram s ?k) + 1"
    using tot by (simp add: unat_plus_one)
  have le: "bucket_total s 122 \<le> bucket_total s 1000000"
    "bucket_total s 140 \<le> bucket_total s 1000000"
    "bucket_total s 145 \<le> bucket_total s 1000000"
    unfolding bucket_total_def using sum_list_upt_mono [of _ 1000000] by simp_all
  have b: "unat (below_122us_counter s + 1) = unat (below_122us_counter s) + 1"
    "unat (below_140us_counter s + 1) = unat (below_140us_counter s) + 1"
    "unat (below_145us_counter s + 1) = unat (below_145us_counter s) + 1"
    using ex tot le by (simp_all add: counts_exact_def unat_plus_one)
  have t: "unat (total_counter s + 1) = unat (total_counter s) + 1"
    using room by (simp add: unat_plus_one)
  show ?thesis
    using ex k
    by (simp add: counts_exact_def bucket_total_AddData [OF bk] total_counter_AddData
        below_AddData reduced_less_iff b t)
qed

lemma counts_exact_foldl:
  "length delays < 4294967296 \<Longrightarrow>
   counts_exact (foldl AddData new_EventStatistic delays) \<and>
   unat (total_counter (foldl AddData new_EventStatistic delays)) = length delays"
proof (induction delays rule: rev_induct)
  case Nil
  show ?case
    by (simp add: counts_exact_def bucket_total_def new_EventStatistic_def Reset_def)
next
  case (snoc d ds)
  then have ih: "counts_exact (foldl AddData new_EventStatistic ds)"
    and len: "unat (total_counter (foldl AddData new_EventStatistic ds)) = length ds"
    by simp_all
  have room: "unat (total_counter (foldl AddData new_EventStatistic ds)) < 4294967295"
    using snoc.prems len by simp
  show ?case
    using counts_exact_AddData [OF ih room, of d] len by simp
qed

lemma foldl_AddData_replicate:
  "histogram (foldl AddData s (replicate n d)) =
     (histogram s)(unat (d mod microsecondsInSecond) :=
        histogram s (unat (d mod microsecondsInSecond)) + of_nat n)
   \<and> total_counter (foldl AddData s (replicate n d)) = total_counter s + of_nat n"
proof (induction n arbitrary: s)
  case 0
  show ?case by simp
next
  case (Suc n)
  show ?case
    by (simp add: Suc histogram_AddData total_counter_AddData add.assoc fun_eq_iff)
qed

text \<open>
  Claim C6, as the source has it. After any sequence of \<open>AddData\<close> calls on a fresh
  event, whatever the delays, the bucket counters added up as \<^verbatim>\<open>uint32_t\<close> values
  give the total count, and those below 122, 140 and 145 give the three sub-counts;
  for fewer than \<open>2 ^ 32\<close> calls the same holds for the sums as unbounded numbers,
  and the total count is the number of calls.
\<close>

theorem AddData_sequence_sums:
  "sums_agree (foldl AddData new_EventStatistic delays)
   \<and> (length delays < 4294967296 \<longrightarrow>
        counts_exact (foldl AddData new_EventStatistic delays)
        \<and> unat (total_counter (foldl AddData new_EventStatistic delays)) = length delays)"
  using sums_agree_foldl [OF sums_agree_new, of delays] counts_exact_foldl [of delays]
  by simp

theorem AddData_sequence_sums_witness:
  "length [10, 1000042, 130 :: 32 word] < 4294967296
   \<and> sums_agree (foldl AddData new_EventStatistic [10, 1000042, 130])
   \<and> counts_exact (foldl AddData new_EventStatistic [10, 1000042, 130])"
  using AddData_sequence_sums [of "[10, 1000042, 130]"] by simp

text \<open>
  Claim C6 as stated, with the sum an unbounded number, fails once the 32-bit total
  wraps around: after \<open>2 ^ 31\<close> inserts of delay 0 and \<open>2 ^ 31\<close> of delay 1 the
  total count is 0 again and the two buckets hold \<open>2 ^ 31\<close> each.
\<close>

theorem bucket_total_overflow_counterexample:
  "bucket_total (foldl AddData new_EventStatistic
       (replicate 2147483648 0 @ replicate 2147483648 1)) 1000000
   \<noteq> unat (total_counter (foldl AddData new_EventStatistic
       (replicate 2147483648 0 @ replicate 2147483648 1)))"
proof -
  let ?s = "foldl AddData new_EventStatistic (replicate 2147483648 0 @ replicate 2147483648 1)"
  have h: "histogram ?s 0 = 2147483648"
    by (simp add: foldl_AddData_replicate microsecondsInSecond_def new_EventStatistic_def Reset_def)
  have t: "total_counter ?s = 0"
    by (simp add: foldl_AddData_replicate new_EventStatistic_def Reset_def)
  have "unat (histogram ?s 0) \<le> bucket_total ?s 1000000"
    unfolding bucket_total_def by (rule bucket_le_sum_list) simp
  then show ?thesis
    unfolding h t by simp
qed


subsection \<open>Calc on the worked example\<close>

lemma Calc_body_empty_bucket: "histogram (fst sl) delay = 0 \<Longrightarrow> Calc_body delay sl = sl"
  by (simp add: Calc_body_def)

lemma fold_Calc_body_empty_range:
  "(\<And>i. a \<le> i \<Longrightarrow> i < b \<Longrightarrow> histogram (fst sl) i = 0) \<Longrightarrow>
   fold Calc_body [a..<b] sl = sl"
proof (induction b)
  case 0
  show ?case by simp
next
  case (Suc b)
  show ?case
  proof (cases "a \<le> b")
    case True
    have "fold Calc_body [a..<b] sl = sl"
      using Suc by simp
    moreover have "Calc_body b sl = sl"
      using Suc.prems True by (simp add: Calc_body_empty_bucket)
    ultimately show ?thesis
      using True by simp
  next
    case False
    then show ?thesis by simp
  qed
qed

lemma fold_upt_split:
  "a \<le> b \<Longrightarrow> b < c \<Longrightarrow> fold f [a..<c] x = fold f [Suc b..<c] (f b (fold f [a..<b] x))"
proof -
  assume "a \<le> b" "b < c"
  then have "[a..<c] = [a..<b] @ [b..<c]"
    using upt_add_eq_append [of a b "c - b"] by simp
  also have "[b..<c] = b # [Suc b..<c]"
    using \<open>b < c\<close> by (rule upt_conv_Cons)
  finally have "[a..<c] = [a..<b] @ b # [Suc b..<c]" .
  then show ?thesis by simp
qed

lemma sample_stat_fields:
  "sample_stat =
     \<lparr> minimum = 10, maximum = 130, median = 0,
       percentel_122us_90_0 = 0, percentel_140us_99_0 = 0, percentel_145us_99_9 = 0,
       total_counter = 10,
       below_122us_counter = 9, below_140us_counter = 10, below_145us_counter = 10,
       histogram = (\<lambda>_. 0)(10 := 9, 130 := 1) \<rparr>"
  by (simp add: sample_stat_def AddData_def new_EventStatistic_def Reset_def
      microsecondsInSecond_def Let_def fun_eq_iff)

lemma Calc_sample_stat:
  "Calc sample_stat =
     \<lparr> minimum = 10, maximum = 130, median = 130,
       percentel_122us_90_0 = 10, percentel_140us_99_0 = 130, percentel_145us_99_9 = 130,
       total_counter = 10,
       below_122us_counter = 9, below_140us_counter = 10, below_145us_counter = 10,
       histogram = (\<lambda>_. 0)(10 := 9, 130 := 1) \<rparr>"
proof -
  let ?h = "(\<lambda>_. 0)(10 := 9, 130 := 1) :: nat \<Rightarrow> 32 word"
  let ?l0 = "\<lparr> local_median_counter = 0, local_122us_counter = 0,
               local_140us_counter = 0, local_145us_counter = 0 \<rparr>"
  let ?s1 = "\<lparr> minimum = 10, maximum = 130, median = 10,
       percentel_122us_90_0 = 10, percentel_140us_99_0 = 10, percentel_145us_99_9 = 10,
       total_counter = 10,
       below_122us_counter = 9, below_140us_counter = 10, below_145us_counter = 10,
       histogram = ?h \<rparr>"
  let ?l1 = "\<lparr> local_median_counter = 9, local_122us_counter = 9,
               local_140us_counter = 9, local_145us_counter = 9 \<rparr>"
  let ?s2 = "\<lparr> minimum = 10, maximum = 130, median = 130,
       percentel_122us_90_0 = 10, percentel_140us_99_0 = 130, percentel_145us_99_9 = 130,
       total_counter = 10,
       below_122us_counter = 9, below_140us_counter = 10, below_145us_counter = 10,
       histogram = ?h \<rparr>"
  let ?l2 = "\<lparr> local_median_counter = 10, local_122us_counter = 9,
               local_140us_counter = 10, local_145us_counter = 10 \<rparr>"
  have a: "fold Calc_body [0..<10] (sample_stat, ?l0) = (sample_stat, ?l0)"
    by (rule fold_Calc_body_empty_range) (simp add: sample_stat_fields)
  have b: "Calc_body 10 (sample_stat, ?l0) = (?s1, ?l1)"
    by (simp add: Calc_body_def sample_stat_fields fraction_below_def)
  have c: "fold Calc_body [11..<130] (?s1, ?l1) = (?s1, ?l1)"
    by (rule fold_Calc_body_empty_range) simp
  have d: "Calc_body 130 (?s1, ?l1) = (?s2, ?l2)"
    by (simp add: Calc_body_def fraction_below_def)
  have e: "fold Calc_body [131..<1000000] (?s2, ?l2) = (?s2, ?l2)"
    by (rule fold_Calc_body_empty_range) simp
  have "fold Calc_body [0..<1000000] (sample_stat, ?l0) =
          fold Calc_body [Suc 10..<1000000] (Calc_body 10 (fold Calc_body [0..<10] (sample_stat, ?l0)))"
    by (rule fold_upt_split) simp_all
  also have "\<dots> = fold Calc_body [11..<1000000] (?s1, ?l1)"
    by (simp only: a b) (simp del: upt_rec_numeral)
  also have "\<dots> = fold Calc_body [Suc 130..<1000000] (Calc_body 130 (fold Calc_body [11..<130] (?s1, ?l1)))"
    by (rule fold_upt_split) simp_all
  also have "\<dots> = fold Calc_body [131..<1000000] (?s2, ?l2)"
    by (simp only: c d) (simp del: upt_rec_numeral)
  also have "\<dots> = (?s2, ?l2)"
    by (rule e)
  finally have "fold Calc_body [0..<1000000] (sample_stat, ?l0) = (?s2, ?l2)" .
  moreover have "unat microsecondsInSecond = 1000000"
    by (simp add: microsecondsInSecond_def)
  ultimately show ?thesis
    by (simp only: Calc_def fst_conv)
qed

text \<open>
  Claim C1 at its worked example. \<open>Calc\<close> compares the running fraction, which is
  at most 1, with 50.0, 90.0, 99.0 and 99.9, so every non-empty bucket below the
  bound overwrites the output: after nine delays of 10 and one of 130 the median is
  130, where the claim has 10. The 90th percentile under 122 is 10, as claimed.
\<close>

theorem Calc_worked_example: "GetMedian (Calc sample_stat) = 130 \<and> Get122us90Percentel (Calc sample_stat) = 10"
  by (simp add: Calc_sample_stat GetMedian_def Get122us90Percentel_def)

section \<open>Queries on the registry\<close>

lemma map_find_map_insert_absent:
  "map_count ps k = 0 \<Longrightarrow> map_find (map_insert (k, v) ps) k = Some v"
  by (induction ps) (auto split: if_splits)

lemma map_insert_again:
  "map_insert (k, v) (map_insert (k, v') ps) = map_insert (k, v') ps"
  by (induction ps) auto

lemma map_find_map_entry:
  "map_find (map (\<lambda>(a, b). if a = k then (a, f b) else (a, b)) ps) k =
     map_option f (map_find ps k)"
  by (induction ps) auto

lemma map_find_in_set: "map_find ps k = Some v \<Longrightarrow> (k, v) \<in> set ps"
  by (induction ps) (auto split: if_splits)

lemma map_find_map_modify_absent:
  "map_count ps k = 0 \<Longrightarrow> map_find (map_modify k f ps) k = Some (f new_EventStatistic)"
  by (simp add: map_modify_def map_find_map_entry map_find_map_insert_absent)

lemma map_find_map_modify_new:
  "map_find (map_modify k f (map_insert (k, v) ps)) k =
     map_option f (map_find (map_insert (k, v) ps) k)"
  by (simp add: map_modify_def map_find_map_entry map_insert_again)

lemma Calc_new_EventStatistic: "Calc new_EventStatistic = new_EventStatistic"
  unfolding Calc_def
  by (subst fold_Calc_body_empty_range) (simp_all add: new_EventStatistic_def Reset_def)

lemma GetReport_new_EventStatistic:
  "GetReport new_EventStatistic = ''min=0 50%=0 90%=0 99%=0 99.9%=0''"
  by code_simp

lemma GetFullReport_new_EventStatistic:
  "GetFullReport show_percent new_EventStatistic =
     ''ExecTime'' @ [tab] @ ''TransNo'' @ [tab] @ ''Weight,%'' @ [tab] @ ''Percent'' @ endl"
proof -
  have h: "histogram new_EventStatistic = (\<lambda>_. 0)"
    by (simp add: new_EventStatistic_def Reset_def)
  have r5: "GetFullReport_rows show_percent new_EventStatistic 5 5 0 = []"
    by (subst GetFullReport_rows.simps) simp
  have r0: "GetFullReport_rows show_percent new_EventStatistic 0 5 0 = []"
    by (subst GetFullReport_rows.simps) (simp add: h r5 del: upt_rec_numeral)
  have m: "minimum new_EventStatistic = 0" "maximum new_EventStatistic = 0"
    by (simp_all add: new_EventStatistic_def Reset_def)
  show ?thesis
    by (simp add: GetFullReport_def m r0)
qed

lemma GetEventStatistic_unseen:
  assumes "map_count (events st) name = 0"
  shows "fst (GetEventStatistic st name) = name @ '' '' @ GetReport new_EventStatistic @ endl"
    and "map_find (events (snd (GetEventStatistic st name))) name = Some new_EventStatistic"
  using assms
  by (simp_all add: GetEventStatistic_def AddEvent_def Let_def map_find_map_modify_new
      map_find_map_insert_absent Calc_new_EventStatistic)

lemma GetFullStatistic_has_block:
  assumes "map_find (events st) name = Some s"
  shows "\<exists>pre post. fst (GetFullStatistic show_percent st) =
           pre @ event_block show_percent (name, Calc s) @ post"
proof -
  have "(name, s) \<in> set (events st)"
    using assms by (rule map_find_in_set)
  then obtain xs ys where "events st = xs @ (name, s) # ys"
    by (auto simp: in_set_conv_decomp)
  then show ?thesis
    by (auto simp: GetFullStatistic_def)
qed

text \<open>
  Claim C8. Querying a name the registry does not hold does not fail: the text
  returned is the name followed by \<open>min=0 50%=0 90%=0 99%=0 99.9%=0\<close>, the registry
  then holds a zero-valued entry under that name, and the text of a later
  \<open>GetFullStatistic\<close> contains the block of that event (its summary line, the
  header of its empty distribution table and the closing empty line), however the
  two percentage columns are printed.
\<close>

theorem query_unseen_event:
  "map_count (events st) name = 0 \<Longrightarrow>
   fst (GetEventStatistic st name) = name @ '' min=0 50%=0 90%=0 99%=0 99.9%=0'' @ endl
   \<and> map_find (events (snd (GetEventStatistic st name))) name = Some new_EventStatistic
   \<and> (\<exists>pre post.
        fst (GetFullStatistic show_percent (snd (GetEventStatistic st name))) =
          pre @ name @ '' min=0 50%=0 90%=0 99%=0 99.9%=0'' @ endl
          @ ''ExecTime'' @ [tab] @ ''TransNo'' @ [tab] @ ''Weight,%'' @ [tab] @ ''Percent'' @ endl
          @ endl @ post)"
proof -
  assume a: "map_count (events st) name = 0"
  have f: "map_find (events (snd (GetEventStatistic st name))) name = Some new_EventStatistic"
    using a by (rule GetEventStatistic_unseen(2))
  obtain pre post where
    "fst (GetFullStatistic show_percent (snd (GetEventStatistic st name))) =
       pre @ event_block show_percent (name, Calc new_EventStatistic) @ post"
    using GetFullStatistic_has_block [OF f] by blast
  then have "fst (GetFullStatistic show_percent (snd (GetEventStatistic st name))) =
          pre @ name @ '' min=0 50%=0 90%=0 99%=0 99.9%=0'' @ endl
          @ ''ExecTime'' @ [tab] @ ''TransNo'' @ [tab] @ ''Weight,%'' @ [tab] @ ''Percent'' @ endl
          @ endl @ post"
    by (simp add: event_block_def Calc_new_EventStatistic GetReport_new_EventStatistic
        GetFullReport_new_EventStatistic)
  then show ?thesis
    using GetEventStatistic_unseen(1) [OF a] f
    by (simp add: GetReport_new_EventStatistic) blast
qed

theorem query_unseen_event_witness:
  "map_count (events \<lparr>events = []\<rparr>) ''abc'' = 0
   \<and> fst (GetEventStatistic \<lparr>events = []\<rparr> ''abc'') =
       ''abc min=0 50%=0 90%=0 99%=0 99.9%=0'' @ endl"
  using query_unseen_event [of "\<lparr>events = []\<rparr>" "''abc''"] by simp

section \<open>The UDP query\<close>

lemma takeWhile_take_NUL:
  "CHR 0x00 \<in> set (take n payload) \<Longrightarrow>
   takeWhile (\<lambda>c. c \<noteq> CHR 0x00) (take n payload) =
     takeWhile (\<lambda>c. c \<noteq> CHR 0x00) payload"
proof (induction payload arbitrary: n)
  case Nil
  then show ?case by simp
next
  case (Cons c cs)
  then show ?case by (cases n) auto
qed

lemma UDPHandler_event_NUL:
  "CHR 0x00 \<in> set (take 1024 payload) \<Longrightarrow>
   UDPHandler_event buf payload = Some (takeWhile (\<lambda>c. c \<noteq> CHR 0x00) payload)"
  by (simp add: UDPHandler_event_def recvfrom_def string_of_c_str_def takeWhile_take_NUL)

lemma map_find_map_insert: "\<exists>s. map_find (map_insert (k, v) ps) k = Some s"
  by (induction ps) auto

lemma map_find_map_modify: "\<exists>s. map_find (map_modify k f ps) k = Some s"
  using map_find_map_insert [of k new_EventStatistic ps]
  by (auto simp: map_modify_def map_find_map_entry)

lemma GetEventStatistic_report:
  "\<exists>entry. map_find (events (snd (GetEventStatistic st name))) name = Some entry
     \<and> fst (GetEventStatistic st name) = name @ '' '' @ GetReport entry @ endl"
  using map_find_map_modify [of name Calc "events (AddEvent st name)"]
  by (auto simp: GetEventStatistic_def Let_def)

text \<open>
  A datagram that carries a NUL byte among its first 1024 bytes is well defined
  whatever the buffer held before: the name looked up is the payload up to that NUL,
  and exactly one datagram goes back, to the source address of the query, holding
  the name, a space, the summary of that event's entry and a newline.
\<close>

lemma UDPHandler_reply:
  "CHR 0x00 \<in> set (take 1024 payload) \<Longrightarrow>
   UDPHandler_event buf payload = Some (takeWhile (\<lambda>c. c \<noteq> CHR 0x00) payload)
   \<and> (\<exists>entry stat'.
        UDPHandler buf (payload, src_addr) stat =
          Some ([(takeWhile (\<lambda>c. c \<noteq> CHR 0x00) payload @ '' '' @ GetReport entry @ endl,
                  src_addr)], stat')
        \<and> stat' = snd (GetEventStatistic stat (takeWhile (\<lambda>c. c \<noteq> CHR 0x00) payload))
        \<and> map_find (events stat') (takeWhile (\<lambda>c. c \<noteq> CHR 0x00) payload) = Some entry)"
proof -
  assume nul: "CHR 0x00 \<in> set (take 1024 payload)"
  let ?ev = "takeWhile (\<lambda>c. c \<noteq> CHR 0x00) payload"
  have ev: "UDPHandler_event buf payload = Some ?ev"
    using nul by (rule UDPHandler_event_NUL)
  obtain entry where e: "map_find (events (snd (GetEventStatistic stat ?ev))) ?ev = Some entry"
    and r: "fst (GetEventStatistic stat ?ev) = ?ev @ '' '' @ GetReport entry @ endl"
    using GetEventStatistic_report [of stat ?ev] by blast
  have "UDPHandler buf (payload, src_addr) stat =
          Some ([(fst (GetEventStatistic stat ?ev), src_addr)], snd (GetEventStatistic stat ?ev))"
    by (simp add: UDPHandler_def ev split: prod.splits)
  then show ?thesis
    using ev e r by simp
qed

text \<open>
  Claim C4 at concrete datagrams. The name looked up is what the buffer holds up to
  its first NUL, not the payload: \<open>buf\<close> is never initialised and the length that
  \<^verbatim>\<open>recvfrom\<close> returns is dropped. The query \<open>ab\<close>, received into a buffer whose
  third byte is still \<open>G\<close> from earlier use of the stack, looks up \<open>abG\<close>; into a
  buffer without any NUL the read runs past the array; and a payload with a NUL
  inside it, \<open>ab\<close>, NUL, \<open>cd\<close>, looks up \<open>ab\<close>. The claim has the payload itself
  in all three cases.
\<close>

theorem UDPHandler_event_not_payload:
  "UDPHandler_event (''xyG'' @ replicate 1021 (CHR 0x00)) ''ab'' = Some ''abG''
   \<and> UDPHandler_event (replicate 1024 (CHR ''z'')) ''ab'' = None
   \<and> UDPHandler_event (replicate 1024 (CHR 0x00)) (''ab'' @ [CHR 0x00] @ ''cd'') = Some ''ab''"
  by code_simp

section \<open>The record parser\<close>

text \<open>
  What \<open>MainHandler\<close> does to a registry is the emitted pairs applied in order.
\<close>

lemma MainHandler_byte_log_call:
  "MainHandler_byte add c l (foldl (\<lambda>s (e, d). add s e d) st0 calls) =
     (fst (MainHandler_byte log_call c l calls),
      foldl (\<lambda>s (e, d). add s e d) st0 (snd (MainHandler_byte log_call c l calls)))"
  by (simp add: MainHandler_byte_def log_call_def Let_def split: sum.splits)

lemma MainHandler_buf_log_call:
  "MainHandler_buf add cs l (foldl (\<lambda>s (e, d). add s e d) st0 calls) =
     (fst (MainHandler_buf log_call cs l calls),
      foldl (\<lambda>s (e, d). add s e d) st0 (snd (MainHandler_buf log_call cs l calls)))"
proof (induction cs arbitrary: l calls)
  case Nil
  show ?case by simp
next
  case (Cons c cs)
  show ?case
    by (cases "MainHandler_byte log_call c l calls")
      (auto simp: MainHandler_byte_log_call Cons.IH split: sum.splits)
qed

lemma MainHandler_loop_log_call:
  "MainHandler_loop add reads l (foldl (\<lambda>s (e, d). add s e d) st0 calls) =
     (fst (MainHandler_loop log_call reads l calls),
      foldl (\<lambda>s (e, d). add s e d) st0 (snd (MainHandler_loop log_call reads l calls)))"
proof (induction reads arbitrary: l calls)
  case Nil
  show ?case by simp
next
  case (Cons b bs)
  show ?case
    by (cases "MainHandler_buf log_call b l calls")
      (auto simp: MainHandler_buf_log_call Cons.IH split: sum.splits)
qed

lemma MainHandler_replays_emitted:
  "MainHandler add reads st0 =
     (fst (emitted reads), foldl (\<lambda>s (e, d). add s e d) st0 (snd (emitted reads)))"
  using MainHandler_loop_log_call [of add reads _ st0 "[]"]
  by (simp add: MainHandler_def emitted_def)

lemma MainHandler_buf_append:
  "MainHandler_buf add (xs @ ys) l stat =
     (case MainHandler_buf add xs l stat of
        (Inl e, stat') \<Rightarrow> (Inl e, stat')
      | (Inr l', stat') \<Rightarrow> MainHandler_buf add ys l' stat')"
  by (induction xs arbitrary: l stat) (auto split: prod.splits sum.splits)

lemma MainHandler_loop_concat:
  "[] \<notin> set chunks \<Longrightarrow>
   MainHandler_loop add chunks l stat =
     (case MainHandler_buf add (concat chunks) l stat of
        (Inl e, stat') \<Rightarrow> (Some e, stat')
      | (Inr l', stat') \<Rightarrow> (None, stat'))"
proof (induction chunks arbitrary: l stat)
  case Nil
  show ?case by simp
next
  case (Cons c cs)
  then have c: "c \<noteq> []" and cs: "[] \<notin> set cs"
    by auto
  show ?case
    using c by (simp add: MainHandler_buf_append Cons.IH [OF cs] split: prod.splits sum.splits)
qed

lemma MainHandler_loop_single:
  "MainHandler_loop add [R] l stat =
     (case MainHandler_buf add R l stat of
        (Inl e, stat') \<Rightarrow> (Some e, stat')
      | (Inr l', stat') \<Rightarrow> (None, stat'))"
  by (cases R) (simp_all split: prod.splits sum.splits)

lemma MainHandler_chunks:
  "[] \<notin> set chunks \<Longrightarrow> MainHandler add chunks stat = MainHandler add [concat chunks] stat"
proof -
  assume ne: "[] \<notin> set chunks"
  show ?thesis
    unfolding MainHandler_def
    by (simp only: MainHandler_loop_concat [OF ne] MainHandler_loop_single)
qed

text \<open>
  Claim C5. For every byte sequence \<open>R\<close> and every way of cutting it into non-empty
  chunks, one run of \<open>MainHandler\<close> over the chunks emits the same pairs, and ends the
  same way, as over \<open>R\<close> in one piece; the same holds for what it does to any
  registry.
\<close>

theorem chunk_boundary_invariance:
  "[] \<notin> set chunks \<Longrightarrow> concat chunks = R \<Longrightarrow>
   emitted chunks = emitted [R] \<and> MainHandler add chunks stat = MainHandler add [R] stat"
  by (auto simp: emitted_def MainHandler_chunks)

theorem chunk_boundary_invariance_witness:
  "[] \<notin> set [''[t'', '']'' @ [tab] @ ''A'', [tab] @ concat (replicate 13 (''x'' @ [tab])) @ ''5'', endl]
   \<and> concat [''[t'', '']'' @ [tab] @ ''A'', [tab] @ concat (replicate 13 (''x'' @ [tab])) @ ''5'', endl]
       = wire_record ''A'' ''5''
   \<and> emitted [''[t'', '']'' @ [tab] @ ''A'', [tab] @ concat (replicate 13 (''x'' @ [tab])) @ ''5'', endl]
       = emitted [wire_record ''A'' ''5'']"
  using chunk_boundary_invariance
    [of "[''[t'', '']'' @ [tab] @ ''A'', [tab] @ concat (replicate 13 (''x'' @ [tab])) @ ''5'', endl]"
        "wire_record ''A'' ''5''" log_call "[]"]
  by (simp add: wire_record_def endl_def)

text \<open>
  An empty delay field makes \<^verbatim>\<open>stoi\<close> throw, in any state of the registry.
\<close>

lemma MainHandler_byte_empty_delay:
  "sect l = 4 \<Longrightarrow> avgtsmr l = [] \<Longrightarrow> \<not> isdigit c \<Longrightarrow>
   MainHandler_byte add c l stat = (Inl invalid_argument, stat)"
  by (simp add: MainHandler_byte_def stoi_def)

text \<open>
  Claim C2 at its example. Of a well-formed record, a record with an empty delay
  field and a further well-formed record, the parser emits the first pair only: at
  the byte that ends the empty delay field \<^verbatim>\<open>std::invalid_argument\<close> leaves
  \<open>MainHandler\<close>, and the third record is never read. The claim has two pairs and
  no abort.
\<close>

theorem empty_delay_aborts_stream:
  "emitted [wire_record ''A'' ''5'' @ wire_record ''B'' '''' @ wire_record ''C'' ''7'']
     = (Some invalid_argument, [(''A'', 5)])"
  by code_simp

lemma three_good_records:
  "emitted [wire_record ''A'' ''5'' @ wire_record ''B'' ''66'' @ wire_record ''C'' ''7'']
     = (None, [(''A'', 5), (''B'', 66), (''C'', 7)])"
  by code_simp

text \<open>
  Claim C10. On a closing bracket, two tabs, thirteen filler fields and the delay 42
  ended by a newline, the parser emits the pair of the empty name and 42, and the
  registry, empty before, then holds exactly one entry, under the empty name, with
  total count 1 and bucket 42 at 1.
\<close>

theorem empty_event_name_accepted:
  "emitted ['']'' @ [tab, tab] @ concat (replicate 13 (''x'' @ [tab])) @ ''42'' @ endl]
     = (None, [('''', 42)])
   \<and> fst (MainHandler AddEventData
        ['']'' @ [tab, tab] @ concat (replicate 13 (''x'' @ [tab])) @ ''42'' @ endl]
        \<lparr>events = []\<rparr>) = None
   \<and> map (\<lambda>e. (fst e, total_counter (snd e), histogram (snd e) 42))
        (events (snd (MainHandler AddEventData
          ['']'' @ [tab, tab] @ concat (replicate 13 (''x'' @ [tab])) @ ''42'' @ endl]
          \<lparr>events = []\<rparr>)))
      = [('''', 1, 1)]"
  by code_simp

end
